theory Spec2Isabelle
  imports Main "HOL-Library.Sublist" "HOL-Library.Word"
begin

section \<open>Strings\<close>

text \<open>
  Python strings are modelled as \<open>string\<close>; a \<open>char\<close> stands for a code point below 256.
  \<open>py_isspace\<close> is \<^verbatim>\<open>str.isspace\<close> on that range, which is what \<^verbatim>\<open>str.strip()\<close> removes.
\<close>

definition py_isspace :: "char \<Rightarrow> bool" where
  "py_isspace c =
     (let n = (of_char c :: nat)
      in (9 \<le> n \<and> n \<le> 13) \<or> (28 \<le> n \<and> n \<le> 32) \<or> n = 133 \<or> n = 160)"

definition strip :: "string \<Rightarrow> string" where
  "strip s = rev (dropWhile py_isspace (rev (dropWhile py_isspace s)))"

text \<open>\<^verbatim>\<open>s.replace(old, new)\<close> for a non-empty \<open>old\<close>: leftmost non-overlapping occurrences.\<close>

fun replace :: "string \<Rightarrow> string \<Rightarrow> string \<Rightarrow> string" where
  "replace old new [] = []"
| "replace old new (c # cs) =
     (if prefix old (c # cs) then new @ replace old new (drop (length old - 1) cs)
      else c # replace old new cs)"

text \<open>\<^verbatim>\<open>s.split(sep)\<close> for a one-character separator: never the empty list.\<close>

fun split :: "char \<Rightarrow> string \<Rightarrow> string list" where
  "split sep [] = [[]]"
| "split sep (c # cs) =
     (if c = sep then [] # split sep cs
      else (case split sep cs of [] \<Rightarrow> [[c]] | p # ps \<Rightarrow> (c # p) # ps))"

text \<open>ASCII lower-casing, which is all that the extension test of the downloader can see.\<close>

definition lower_char :: "char \<Rightarrow> char" where
  "lower_char c =
     (let n = (of_char c :: nat) in if 65 \<le> n \<and> n \<le> 90 then char_of (n + 32) else c)"

definition lower :: "string \<Rightarrow> string" where
  "lower s = map lower_char s"

text \<open>\<^verbatim>\<open>s.endswith((a, b, ...))\<close> with a tuple of suffixes.\<close>

fun endswith :: "string \<Rightarrow> string list \<Rightarrow> bool" where
  "endswith s [] = False"
| "endswith s (e # es) = (if suffix e s then True else endswith s es)"

text \<open>\<^verbatim>\<open>str(n)\<close> for a natural number and for a Python int.\<close>

function str_nat :: "nat \<Rightarrow> string" where
  "str_nat n =
     (if n < 10 then [char_of (48 + n)] else str_nat (n div 10) @ [char_of (48 + n mod 10)])"
  by pat_completeness auto
termination
  by (relation "measure id") auto

declare str_nat.simps [simp del]

definition str_int :: "int \<Rightarrow> string" where
  "str_int i = (if i < 0 then CHR ''-'' # str_nat (nat (- i)) else str_nat (nat i))"

section \<open>The parsed document\<close>

text \<open>
  The tree that \<^verbatim>\<open>BeautifulSoup(resp.text, "html.parser")\<close> hands to the extractor: a tag
  has a name, its attribute dictionary and its children; a text node has its text.
\<close>

datatype node = Tag string "(string \<times> string) list" "node list" | NavigableString string

fun descendants :: "node \<Rightarrow> node list" where
  "descendants (NavigableString s) = []"
| "descendants (Tag nm as cs) = concat (map (\<lambda>c. c # descendants c) cs)"

fun is_tag :: "string \<Rightarrow> node \<Rightarrow> bool" where
  "is_tag nm (Tag nm' as cs) = (nm' = nm)"
| "is_tag nm (NavigableString s) = False"

text \<open>\<^verbatim>\<open>tag.get(key)\<close>: the attribute's value, or \<open>None\<close>.\<close>

fun get_attr :: "node \<Rightarrow> string \<Rightarrow> string option" where
  "get_attr (Tag nm as cs) key = map_of as key"
| "get_attr (NavigableString s) key = None"

text \<open>The values of the multi-valued \<^verbatim>\<open>class\<close> attribute: the maximal runs of non-whitespace.\<close>

fun tokens :: "string \<Rightarrow> string \<Rightarrow> string list" where
  "tokens cur [] = (if cur = [] then [] else [cur])"
| "tokens cur (c # cs) =
     (if py_isspace c then (if cur = [] then tokens [] cs else cur # tokens [] cs)
      else tokens (cur @ [c]) cs)"

definition has_class :: "string \<Rightarrow> node \<Rightarrow> bool" where
  "has_class cls n =
     (case get_attr n ''class'' of None \<Rightarrow> False | Some v \<Rightarrow> cls \<in> set (tokens [] v))"

text \<open>\<^verbatim>\<open>find_all(name)\<close>, \<^verbatim>\<open>find_all(name, class_=cls)\<close> and \<^verbatim>\<open>find(name)\<close>, in document order.\<close>

definition find_all :: "string \<Rightarrow> node \<Rightarrow> node list" where
  "find_all nm n = filter (is_tag nm) (descendants n)"

definition find_all_class :: "string \<Rightarrow> string \<Rightarrow> node \<Rightarrow> node list" where
  "find_all_class nm cls n = filter (\<lambda>d. is_tag nm d \<and> has_class cls d) (descendants n)"

definition find :: "string \<Rightarrow> node \<Rightarrow> node option" where
  "find nm n = (case find_all nm n of [] \<Rightarrow> None | t # ts \<Rightarrow> Some t)"

section \<open>Errors, output and the outside world\<close>

datatype error =
    IndexError
  | KeyError string
  | ValueError string
  | AttributeError string
  | RequestException string

fun str_error :: "error \<Rightarrow> string" where
  "str_error IndexError = ''list index out of range''"
| "str_error (KeyError k) = CHR 0x27 # k @ [CHR 0x27]"
| "str_error (ValueError m) = m"
| "str_error (AttributeError m) = m"
| "str_error (RequestException m) = m"

type_synonym item = "string \<times> string"

type_synonym bytes = "8 word list"

text \<open>The parsed body of the messaging API's answer: an object, or a value of another
  Python type, kept by the name of that type (\<^verbatim>\<open>list\<close>, \<^verbatim>\<open>NoneType\<close>, ...).\<close>

datatype json = JObject "(string \<times> string) list" | JOther string

text \<open>
  What a run does that can be observed: lines printed, requests sent, pauses taken.
  \<open>PrintTag\<close> and \<open>PrintItems\<close> are the extractor's \<^verbatim>\<open>print(li)\<close> and \<^verbatim>\<open>print(items)\<close>;
  \<open>SleepDelay s\<close> is \<^verbatim>\<open>time.sleep(float(s))\<close>.
\<close>

datatype event =
    Print string
  | PrintTag node
  | PrintItems "item list"
  | HttpGet string
  | HttpPost string string string string
  | SleepSeconds nat
  | SleepDelay string

text \<open>
  Everything the program reads from outside: the environment, the answers of the
  network (the page already parsed; the image and the upload by position in the run),
  and the library functions whose code is not the repository's.
\<close>

record world =
  environ :: "string \<Rightarrow> string option"
  page_response :: "string \<Rightarrow> error + node"
  image_response :: "nat \<Rightarrow> string \<Rightarrow> error + bytes"
  telegram_response :: "nat \<Rightarrow> string \<Rightarrow> error + json"
  float_ok :: "string \<Rightarrow> bool"
  urljoin :: "string \<Rightarrow> string \<Rightarrow> string"
  urlparse_path :: "string \<Rightarrow> string option"
  unquote :: "string \<Rightarrow> string"

section \<open>Item extractor\<close>

definition URL :: string where
  "URL = ''https://thetv.jp/news/detail/1310405/''"

text \<open>Lines 41 to 45: the image address built from the link target.\<close>

definition entry_src :: "string \<Rightarrow> string" where
  "entry_src href =
     ''https://thetv.jp/'' @ replace ''/news/detail/'' ''/i/nw/'' (butlast (strip href)) @ ''.jpg''"

text \<open>Lines 48 to 51: the two normalisation branches.\<close>

definition normalize_src :: "world \<Rightarrow> string \<Rightarrow> string \<Rightarrow> string" where
  "normalize_src w url src =
     (if prefix ''//'' src then ''https:'' @ src
      else if prefix ''/'' src then urljoin w url src
      else src)"

text \<open>Lines 53 and 54: \<^verbatim>\<open>img["alt"]\<close> raises on a missing key.\<close>

definition entry_caption :: "node \<Rightarrow> error + string" where
  "entry_caption li =
     (case find ''img'' li of
        None \<Rightarrow> Inr ''''
      | Some img \<Rightarrow>
          (case get_attr img ''alt'' of None \<Rightarrow> Inl (KeyError ''alt'') | Some alt \<Rightarrow> Inr alt))"

text \<open>Line 39: the link target when the entry has a first anchor with a non-empty one.\<close>

definition entry_href :: "node \<Rightarrow> string option" where
  "entry_href li =
     (case find ''a'' li of
        None \<Rightarrow> None
      | Some a \<Rightarrow>
          (case get_attr a ''href'' of
             None \<Rightarrow> None
           | Some h \<Rightarrow> if h = [] then None else Some h))"

text \<open>The loop of lines 36 to 56, with the list built so far and the output so far.\<close>

fun items_loop ::
  "world \<Rightarrow> string \<Rightarrow> node list \<Rightarrow> item list \<Rightarrow> event list \<Rightarrow> event list \<times> (error + item list)"
where
  "items_loop w url [] items out = (out, Inr items)"
| "items_loop w url (li # lis) items out =
     (case entry_href li of
        None \<Rightarrow> items_loop w url lis items (out @ [PrintTag li])
      | Some h \<Rightarrow>
          (let src0 = entry_src h;
               src = normalize_src w url src0
           in case entry_caption li of
                Inl e \<Rightarrow> (out @ [PrintTag li, Print src0], Inl e)
              | Inr caption \<Rightarrow>
                  items_loop w url lis (items @ [(src, caption)])
                    (out @ [PrintTag li, Print src0, PrintItems (items @ [(src, caption)])])))"

definition get_all_items :: "world \<Rightarrow> string \<Rightarrow> nat \<Rightarrow> event list \<times> (error + item list)" where
  "get_all_items w url i =
     (case page_response w url of
        Inl e \<Rightarrow> ([HttpGet url], Inl e)
      | Inr soup \<Rightarrow>
          (case find_all_class ''div'' ''newsimage'' soup of
             [] \<Rightarrow> ([HttpGet url], Inl IndexError)
           | c # cs \<Rightarrow> items_loop w url (find_all ''li'' c) [] [HttpGet url]))"

section \<open>Image downloader\<close>

definition image_extensions :: "string list" where
  "image_extensions = [''.jpg'', ''.jpeg'', ''.png'', ''.gif'', ''.webp'']"

text \<open>
  Lines 72 to 83. \<open>urlparse_path\<close> is \<^verbatim>\<open>urlparse(image_url).path\<close>, \<open>None\<close> when it raises,
  which the source's \<^verbatim>\<open>except Exception\<close> turns into the default name.
\<close>

definition derive_name :: "world \<Rightarrow> string \<Rightarrow> string" where
  "derive_name w image_url =
     (case urlparse_path w image_url of
        None \<Rightarrow> ''file''
      | Some path \<Rightarrow>
          (let n = unquote w (last (split CHR ''/'' path)) in if n = [] then ''file'' else n))"

definition ensure_extension :: "string \<Rightarrow> string" where
  "ensure_extension name =
     (if \<not> endswith (lower name) image_extensions then name @ ''.jpg'' else name)"

text \<open>
  The session argument is represented by the position \<open>idx\<close> of the item in the run,
  which selects the network's answer.
\<close>

definition download_image_bytes ::
  "world \<Rightarrow> nat \<Rightarrow> string \<Rightarrow> event list \<times> (error + bytes \<times> string)"
where
  "download_image_bytes w idx image_url =
     (case image_response w idx image_url of
        Inl e \<Rightarrow> ([HttpGet image_url], Inl e)
      | Inr content \<Rightarrow> ([HttpGet image_url], Inr (content, ensure_extension (derive_name w image_url))))"

section \<open>Notifier\<close>

text \<open>A credential is a string from the environment or the integer the source falls back to.\<close>

datatype pyval = PStr string | PInt int

fun py_str :: "pyval \<Rightarrow> string" where
  "py_str (PStr s) = s"
| "py_str (PInt i) = str_int i"

fun truthy :: "pyval \<Rightarrow> bool" where
  "truthy (PStr s) = (s \<noteq> [])"
| "truthy (PInt i) = (i \<noteq> 0)"

definition send_photo_telegram ::
  "world \<Rightarrow> nat \<Rightarrow> pyval \<Rightarrow> pyval \<Rightarrow> bytes \<Rightarrow> string \<Rightarrow> string \<Rightarrow> event list \<times> (error + json)"
where
  "send_photo_telegram w idx bot_token chat_id file_bytes filename caption =
     (let api = ''https://api.telegram.org/bot'' @ py_str bot_token @ ''/sendPhoto''
      in ([HttpPost api (py_str chat_id) filename caption], telegram_response w idx api))"

text \<open>\<^verbatim>\<open>res.get("ok")\<close>, printed: an answer that is no object has no \<^verbatim>\<open>get\<close>.\<close>

fun get_ok :: "json \<Rightarrow> error + string" where
  "get_ok (JObject kvs) = Inr (case map_of kvs ''ok'' of None \<Rightarrow> ''None'' | Some v \<Rightarrow> v)"
| "get_ok (JOther ty) =
     Inl (AttributeError
            ([CHR 0x27] @ ty @ [CHR 0x27] @ '' object has no attribute '' @ [CHR 0x27] @ ''get'' @ [CHR 0x27]))"

section \<open>Run orchestrator\<close>

datatype outcome = Returned | SysExit nat | Uncaught error

fun exit_code :: "outcome \<Rightarrow> nat" where
  "exit_code Returned = 0"
| "exit_code (SysExit n) = n"
| "exit_code (Uncaught e) = 1"

text \<open>\<^verbatim>\<open>os.getenv(key) or d\<close>: an unset or empty variable gives the integer.\<close>

definition getenv_or :: "world \<Rightarrow> string \<Rightarrow> int \<Rightarrow> pyval" where
  "getenv_or w key d =
     (case environ w key of
        None \<Rightarrow> PInt d
      | Some s \<Rightarrow> if s = [] then PInt d else PStr s)"

text \<open>\<^verbatim>\<open>os.getenv(key, default)\<close>.\<close>

definition getenv_default :: "world \<Rightarrow> string \<Rightarrow> string \<Rightarrow> string" where
  "getenv_default w key d = (case environ w key of None \<Rightarrow> d | Some s \<Rightarrow> s)"

text \<open>
  The loop of lines 129 to 161 over the items from position \<open>idx\<close> on, with the count of
  sends and the output so far. A failed download continues before the delay; a failed
  send falls through to it.
\<close>

fun send_loop ::
  "world \<Rightarrow> pyval \<Rightarrow> pyval \<Rightarrow> string \<Rightarrow> nat \<Rightarrow> nat \<Rightarrow> item list \<Rightarrow> nat \<Rightarrow> event list
    \<Rightarrow> nat \<times> event list"
where
  "send_loop w token chat_id delay n idx [] sent out = (sent, out)"
| "send_loop w token chat_id delay n idx ((image_url, caption) # rest) sent out =
     (let out1 = out @ [Print (''['' @ str_nat idx @ ''/'' @ str_nat n @ ''] Processing: '' @ image_url)]
      in case download_image_bytes w idx image_url of
           (evs, Inl e) \<Rightarrow>
             send_loop w token chat_id delay n (Suc idx) rest sent
               (out1 @ evs @ [Print (''  Error downloading image: '' @ str_error e)])
         | (evs, Inr (file_bytes, filename)) \<Rightarrow>
             (case send_photo_telegram w idx token chat_id file_bytes filename caption of
                (evs2, Inl e) \<Rightarrow>
                  send_loop w token chat_id delay n (Suc idx) rest sent
                    (out1 @ evs @ evs2 @
                     [Print (''  Error sending to Telegram: '' @ str_error e), SleepDelay delay])
              | (evs2, Inr res) \<Rightarrow>
                  (case get_ok res of
                     Inl e \<Rightarrow>
                       send_loop w token chat_id delay n (Suc idx) rest sent
                         (out1 @ evs @ evs2 @
                          [Print (''  Error sending to Telegram: '' @ str_error e), SleepDelay delay])
                   | Inr ok \<Rightarrow>
                       send_loop w token chat_id delay n (Suc idx) rest (Suc sent)
                         (out1 @ evs @ evs2 @
                          [Print (''  Sent as photo '' @ [CHR 0x27] @ filename @ [CHR 0x27] @ '', ok='' @ ok),
                           SleepSeconds 3, SleepDelay delay]))))"

text \<open>The loop of lines 114 to 163 over \<^verbatim>\<open>range(1, 2)\<close>. The message of the \<^verbatim>\<open>ValueError\<close>
  of line 125 quotes the text as \<^verbatim>\<open>repr\<close> does for a text without quotes or escapes.\<close>

fun main_pages :: "world \<Rightarrow> pyval \<Rightarrow> pyval \<Rightarrow> nat list \<Rightarrow> event list \<Rightarrow> event list \<times> outcome" where
  "main_pages w token chat_id [] out = (out, Returned)"
| "main_pages w token chat_id (i # rest) out =
     (case get_all_items w URL i of
        (evs, Inl e) \<Rightarrow>
          (out @ evs @ [Print (''Error fetching/parsing page: '' @ str_error e)], SysExit 1)
      | (evs, Inr items) \<Rightarrow>
          if items = [] then
            main_pages w token chat_id rest (out @ evs @ [Print ''No items found on the page.''])
          else
            (let s = getenv_default w ''TELEGRAM_DELAY_SECONDS'' ''1''
             in if \<not> float_ok w s then
                  (out @ evs,
                   Uncaught (ValueError (''could not convert string to float: '' @ [CHR 0x27] @ s @ [CHR 0x27])))
                else
                  (case send_loop w token chat_id s (length items) 1 items 0 (out @ evs) of
                     (sent, out') \<Rightarrow>
                       main_pages w token chat_id rest
                         (out' @
                          [Print (''Done. Sent '' @ str_nat sent @ ''/'' @ str_nat (length items) @ '' images.'')]))))"

definition main :: "world \<Rightarrow> event list \<times> outcome" where
  "main w =
     (let token = getenv_or w ''TELEGRAM_BOT_TOKEN'' 1;
          chat_id = getenv_or w ''TELEGRAM_CHAT_ID'' 2
      in if \<not> truthy token \<or> \<not> truthy chat_id then
           ([Print ''Please set TELEGRAM_BOT_TOKEN and TELEGRAM_CHAT_ID environment variables.''],
            SysExit 2)
         else main_pages w token chat_id [1] [])"

section \<open>Notions of the specification\<close>

text \<open>An entry has a usable link when line 39 does not skip it.\<close>

definition has_href :: "node \<Rightarrow> bool" where
  "has_href li = (entry_href li \<noteq> None)"

text \<open>An item belongs to an entry: its address is built from the entry's link target and
  its caption is the alternate text the entry yields.\<close>

definition is_item_of :: "node \<Rightarrow> item \<Rightarrow> bool" where
  "is_item_of li it =
     (map_option entry_src (entry_href li) = Some (fst it) \<and> entry_caption li = Inr (snd it))"


definition thetv_jpg :: "string \<Rightarrow> bool" where
  "thetv_jpg u = (prefix ''https://thetv.jp/'' u \<and> suffix ''.jpg'' u)"

text \<open>The origin (scheme and authority) of an absolute http(s) address; \<open>None\<close> for any
  other text.\<close>

definition url_origin :: "string \<Rightarrow> string option" where
  "url_origin u =
     (if prefix ''https://'' u then
        Some (''https://'' @ takeWhile (\<lambda>c. c \<noteq> CHR ''/'') (drop 8 u))
      else if prefix ''http://'' u then
        Some (''http://'' @ takeWhile (\<lambda>c. c \<noteq> CHR ''/'') (drop 7 u))
      else None)"

text \<open>Requests to the network, and pauses, among the events of a run.\<close>

fun is_request :: "event \<Rightarrow> bool" where
  "is_request (HttpGet u) = True"
| "is_request (HttpPost api chat_id filename caption) = True"
| "is_request e = False"

fun is_sleep :: "event \<Rightarrow> bool" where
  "is_sleep (SleepSeconds n) = True"
| "is_sleep (SleepDelay s) = True"
| "is_sleep e = False"

text \<open>The text after the last slash of a path, and the extension rule in the words of the
  specification.\<close>

definition last_segment :: "string \<Rightarrow> string" where
  "last_segment path = rev (takeWhile (\<lambda>c. c \<noteq> CHR ''/'') (rev path))"

definition recognized_extension :: "string \<Rightarrow> bool" where
  "recognized_extension name =
     (suffix ''.jpg'' (lower name) \<or> suffix ''.jpeg'' (lower name) \<or> suffix ''.png'' (lower name)
      \<or> suffix ''.gif'' (lower name) \<or> suffix ''.webp'' (lower name))"

text \<open>What becomes of one item in the send loop: it is sent, or its download fails, or its
  upload fails (the request, or reading the answer). The count of sends and the lines the
  loop prints for an item follow.\<close>

datatype attempt = Sent | DownloadFailed error | SendFailed error





section \<open>Sample inputs\<close>

definition page_of :: "node list \<Rightarrow> node" where
  "page_of lis =
     Tag ''[document]'' [] [Tag ''div'' [(''class'', ''newsimage'')] [Tag ''ul'' [] lis]]"

definition member_a_entry :: node where
  "member_a_entry =
     Tag ''li'' []
       [Tag ''a'' [(''href'', ''/news/detail/1310405/1/'')]
          [Tag ''img'' [(''src'', ''/i/nw/1310405/1_s.jpg''), (''alt'', ''Member A'')] []]]"

definition no_alt_entry :: node where
  "no_alt_entry =
     Tag ''li'' []
       [Tag ''a'' [(''href'', ''/news/detail/1310405/2/'')]
          [Tag ''img'' [(''src'', ''/i/nw/1310405/2_s.jpg'')] []]]"

definition no_img_entry :: node where
  "no_img_entry =
     Tag ''li'' [] [Tag ''a'' [(''href'', ''/news/detail/1310405/3/'')] [NavigableString ''Member C'']]"

definition no_anchor_entry :: node where
  "no_anchor_entry = Tag ''li'' [] [NavigableString ''more'']"

definition no_container_page :: node where
  "no_container_page = Tag ''[document]'' [] [Tag ''p'' [] [NavigableString ''Not Found'']]"

text \<open>A world that serves the given page: the second image request fails, every upload is
  accepted, and only the text \<open>1\<close> parses as a float.\<close>

definition world_with :: "(string \<Rightarrow> string option) \<Rightarrow> node \<Rightarrow> world" where
  "world_with env page =
     \<lparr>environ = env,
      page_response = (\<lambda>u. Inr page),
      image_response =
        (\<lambda>idx u. if idx = 2 then Inl (RequestException ''404 Client Error'') else Inr []),
      telegram_response = (\<lambda>idx api. Inr (JObject [(''ok'', ''True'')])),
      float_ok = (\<lambda>s. s = ''1''),
      urljoin = (\<lambda>base u. ''https://thetv.jp'' @ u),
      urlparse_path = (\<lambda>u. Some (dropWhile (\<lambda>c. c \<noteq> CHR ''/'') (drop 8 u))),
      unquote = (\<lambda>s. s)\<rparr>"

definition credentials :: "string \<Rightarrow> string option" where
  "credentials =
     map_of [(''TELEGRAM_BOT_TOKEN'', ''123:abc''), (''TELEGRAM_CHAT_ID'', ''-1001'')]"

definition three_entries :: "node list" where
  "three_entries = [member_a_entry, no_anchor_entry, no_img_entry]"

definition delay_env :: "string \<Rightarrow> string \<Rightarrow> string option" where
  "delay_env s =
     map_of [(''TELEGRAM_BOT_TOKEN'', ''123:abc''), (''TELEGRAM_CHAT_ID'', ''-1001''),
             (''TELEGRAM_DELAY_SECONDS'', s)]"



definition protocol_relative_entry :: node where
  "protocol_relative_entry =
     Tag ''li'' []
       [Tag ''a'' [(''href'', ''//thetv.jp/news/detail/1310405/5/'')]
          [Tag ''img'' [(''src'', ''//thetv.jp/i/nw/1310405/5_s.jpg''), (''alt'', ''Member E'')] []]]"

section \<open>Facts about the extractor\<close>

lemma entry_src_prefix: "prefix ''https://thetv.jp/'' (entry_src h)"
  by (simp add: entry_src_def)

lemma entry_src_suffix: "suffix ''.jpg'' (entry_src h)"
  unfolding entry_src_def suffix_def
  by (rule exI [of _ "''https://thetv.jp/'' @ replace ''/news/detail/'' ''/i/nw/'' (butlast (strip h))"])
    simp

lemma entry_src_not_relative: "\<not> prefix ''/'' (entry_src h)"
  by (simp add: entry_src_def)

lemma entry_src_not_protocol_relative: "\<not> prefix ''//'' (entry_src h)"
  by (simp add: entry_src_def)

lemma normalize_entry_src: "normalize_src w url (entry_src h) = entry_src h"
  by (simp add: normalize_src_def entry_src_not_relative entry_src_not_protocol_relative)

lemma container_of_page_of:
  "\<exists>cs. find_all_class ''div'' ''newsimage'' (page_of lis) =
     Tag ''div'' [(''class'', ''newsimage'')] [Tag ''ul'' [] lis] # cs"
  by (simp add: page_of_def find_all_class_def has_class_def py_isspace_def)

lemma member_a_href: "entry_href member_a_entry = Some ''/news/detail/1310405/1/''"
  by (simp add: entry_href_def member_a_entry_def find_def find_all_def)

lemma member_a_caption: "entry_caption member_a_entry = Inr ''Member A''"
  by (simp add: entry_caption_def member_a_entry_def find_def find_all_def)

lemma member_a_src:
  "entry_src ''/news/detail/1310405/1/'' = ''https://thetv.jp//i/nw/1310405/1.jpg''"
  by (simp add: entry_src_def strip_def py_isspace_def)

lemma lis_of_member_a:
  "find_all ''li'' (Tag ''div'' [(''class'', ''newsimage'')] [Tag ''ul'' [] [member_a_entry]]) =
     [member_a_entry]"
  by (simp add: find_all_def member_a_entry_def)


lemma get_all_items_container:
  assumes "page_response w url = Inr soup"
    and "find_all_class ''div'' ''newsimage'' soup = c # cs"
  shows "get_all_items w url i = items_loop w url (find_all ''li'' c) [] [HttpGet url]"
  using assms by (simp add: get_all_items_def)


lemma items_loop_urls:
  assumes "snd (items_loop w url lis items out) = Inr res"
    and "list_all (thetv_jpg \<circ> fst) items"
  shows "list_all (thetv_jpg \<circ> fst) res"
  using assms
proof (induction lis arbitrary: items out)
  case Nil
  then show ?case by simp
next
  case (Cons li lis)
  show ?case
  proof (cases "entry_href li")
    case None
    with Cons show ?thesis by simp
  next
    case (Some h)
    show ?thesis
    proof (cases "entry_caption li")
      case (Inl e)
      with Some Cons.prems show ?thesis by (simp add: Let_def)
    next
      case (Inr c)
      have "list_all (thetv_jpg \<circ> fst) (items @ [(entry_src h, c)])"
        using Cons.prems(2) by (simp add: thetv_jpg_def entry_src_prefix entry_src_suffix comp_def)
      moreover have "snd (items_loop w url lis (items @ [(entry_src h, c)])
        (out @ [PrintTag li, Print (entry_src h), PrintItems (items @ [(entry_src h, c)])])) = Inr res"
        using Cons.prems(1) Some Inr by (simp add: normalize_entry_src Let_def)
      ultimately show ?thesis by (rule Cons.IH [rotated])
    qed
  qed
qed



lemma items_loop_urljoin:
  "items_loop (w\<lparr>urljoin := f\<rparr>) url lis items out = items_loop w url lis items out"
  by (induction lis arbitrary: items out)
    (simp_all add: normalize_entry_src Let_def split: option.splits sum.splits)

lemma get_all_items_urljoin:
  "get_all_items (w\<lparr>urljoin := f\<rparr>) url i = get_all_items w url i"
  by (simp add: get_all_items_def items_loop_urljoin split: sum.splits list.splits)

lemma get_all_items_urls:
  assumes "snd (get_all_items w url i) = Inr items"
  shows "list_all (thetv_jpg \<circ> fst) items"
proof (cases "page_response w url")
  case (Inl e)
  with assms show ?thesis by (simp add: get_all_items_def)
next
  case (Inr soup)
  show ?thesis
  proof (cases "find_all_class ''div'' ''newsimage'' soup")
    case Nil
    with Inr assms show ?thesis by (simp add: get_all_items_def)
  next
    case (Cons c cs)
    with Inr assms have "snd (items_loop w url (find_all ''li'' c) [] [HttpGet url]) = Inr items"
      by (simp add: get_all_items_def)
    then show ?thesis by (rule items_loop_urls) simp
  qed
qed

lemma items_loop_Inr:
  assumes "snd (items_loop w url lis items out) = Inr res"
  shows "\<exists>new. res = items @ new \<and> list_all2 is_item_of (filter has_href lis) new"
  using assms
proof (induction lis arbitrary: items out)
  case Nil
  then show ?case by simp
next
  case (Cons li lis)
  show ?case
  proof (cases "entry_href li")
    case None
    with Cons show ?thesis by (simp add: has_href_def)
  next
    case (Some h)
    show ?thesis
    proof (cases "entry_caption li")
      case (Inl e)
      with Some Cons.prems show ?thesis by (simp add: Let_def)
    next
      case (Inr c)
      have "snd (items_loop w url lis (items @ [(entry_src h, c)])
        (out @ [PrintTag li, Print (entry_src h), PrintItems (items @ [(entry_src h, c)])])) = Inr res"
        using Cons.prems Some Inr by (simp add: normalize_entry_src Let_def)
      from Cons.IH [OF this] obtain new where
        new: "res = (items @ [(entry_src h, c)]) @ new" "list_all2 is_item_of (filter has_href lis) new"
        by blast
      have "list_all2 is_item_of (filter has_href (li # lis)) ((entry_src h, c) # new)"
        using Some Inr new(2) by (simp add: is_item_of_def has_href_def)
      with new(1) show ?thesis by auto
    qed
  qed
qed

lemma url_origin_entry_src: "url_origin (entry_src h) = Some ''https://thetv.jp''"
  by (simp add: url_origin_def entry_src_def)

lemma url_origin_URL: "url_origin URL = Some ''https://thetv.jp''"
  by (simp add: url_origin_def URL_def)

lemma items_loop_requests:
  "filter is_request (fst (items_loop w url lis items out)) = filter is_request out"
  by (induction lis arbitrary: items out)
    (simp_all add: Let_def split: option.splits sum.splits)

lemma items_loop_sleeps:
  "filter is_sleep (fst (items_loop w url lis items out)) = filter is_sleep out"
  by (induction lis arbitrary: items out)
    (simp_all add: Let_def split: option.splits sum.splits)

lemma get_all_items_requests:
  "filter is_request (fst (get_all_items w url i)) = [HttpGet url]"
  by (simp add: get_all_items_def items_loop_requests split: sum.splits list.splits)

lemma get_all_items_sleeps:
  "filter is_sleep (fst (get_all_items w url i)) = []"
  by (simp add: get_all_items_def items_loop_sleeps split: sum.splits list.splits)

section \<open>Facts about splitting a path\<close>

lemma split_nonempty: "split sep s \<noteq> []"
  by (induction s) (auto split: list.splits)

lemma split_no_sep: "sep \<notin> set s \<Longrightarrow> split sep s = [s]"
  by (induction s) auto

lemma split_with_sep: "sep \<in> set s \<Longrightarrow> tl (split sep s) \<noteq> []"
  using split_nonempty [of sep]
  by (induction s) (auto split: list.splits)

lemma last_split_append: "last (split sep (a @ sep # b)) = last (split sep b)"
proof (induction a)
  case Nil
  show ?case using split_nonempty [of sep b] by simp
next
  case (Cons c a)
  show ?case
  proof (cases "c = sep")
    case True
    with Cons show ?thesis using split_nonempty [of sep "a @ sep # b"] by simp
  next
    case False
    have "tl (split sep (a @ sep # b)) \<noteq> []"
      by (rule split_with_sep) simp
    then obtain p q qs where "split sep (a @ sep # b) = p # q # qs"
      by (cases "split sep (a @ sep # b)") (auto simp: neq_Nil_conv)
    with Cons False show ?thesis by simp
  qed
qed

lemma last_split: "last (split sep s) = rev (takeWhile (\<lambda>c. c \<noteq> sep) (rev s))"
proof (cases "sep \<in> set s")
  case False
  then have t: "takeWhile (\<lambda>c. c \<noteq> sep) (rev s) = rev s"
    by (auto intro: takeWhile_eq_all_conv [THEN iffD2])
  show ?thesis unfolding t using False by (simp add: split_no_sep)
next
  case True
  then have "sep \<in> set (rev s)" by simp
  from split_list_first [OF this]
  obtain ys zs where r: "rev s = ys @ sep # zs" "sep \<notin> set ys"
    by blast
  then have s: "s = rev zs @ sep # rev ys"
    by (metis rev_append rev_rev_ident rev.simps(2) append_Cons append_Nil append.assoc)
  have "last (split sep s) = rev ys"
    unfolding s using r(2) by (simp add: last_split_append split_no_sep)
  moreover have "takeWhile (\<lambda>c. c \<noteq> sep) (rev s) = ys"
    unfolding r(1) using r(2) by (auto simp: takeWhile_tail)
  ultimately show ?thesis by simp
qed

section \<open>Facts about the file name\<close>

lemma endswith_iff: "endswith s es \<longleftrightarrow> (\<exists>e\<in>set es. suffix e s)"
  by (induction es) auto

lemma endswith_recognized: "endswith (lower name) image_extensions = recognized_extension name"
  by (simp add: endswith_iff image_extensions_def recognized_extension_def)

lemma derive_name_path:
  assumes "urlparse_path w image_url = Some path"
  shows "derive_name w image_url =
           (if unquote w (last_segment path) = [] then ''file'' else unquote w (last_segment path))"
  using assms by (simp add: derive_name_def last_segment_def last_split Let_def)

lemma file_not_recognized: "\<not> recognized_extension ''file''"
  by code_simp

section \<open>Facts about the run\<close>

lemma main_pages_never_exits_2: "snd (main_pages w token chat_id pages out) \<noteq> SysExit 2"
  by (induction pages arbitrary: out)
    (auto simp: Let_def split: prod.splits sum.splits)

lemma truthy_getenv_or: "d \<noteq> 0 \<Longrightarrow> truthy (getenv_or w key d)"
  by (simp add: getenv_or_def split: option.splits)

lemma main_never_exits_2: "snd (main w) \<noteq> SysExit 2"
  by (simp add: main_def truthy_getenv_or main_pages_never_exits_2 Let_def del: main_pages.simps)





text \<open>With the container present and no entry with a usable link the run ends quietly.\<close>

lemma items_loop_no_links:
  "\<forall>li\<in>set lis. \<not> has_href li \<Longrightarrow> snd (items_loop w url lis items out) = Inr items"
  by (induction lis arbitrary: out) (simp_all add: has_href_def)

lemma no_usable_entry_ends_quietly:
  assumes "page_response w URL = Inr soup"
    and "find_all_class ''div'' ''newsimage'' soup = c # cs"
    and "\<forall>li\<in>set (find_all ''li'' c). \<not> has_href li"
  shows "snd (get_all_items w URL 1) = Inr []
       \<and> snd (main w) = Returned
       \<and> last (fst (main w)) = Print ''No items found on the page.''"
proof -
  have "snd (get_all_items w URL 1) = Inr []"
    using items_loop_no_links [OF assms(3)] get_all_items_container [OF assms(1,2)] by simp
  then obtain evs where g: "get_all_items w URL 1 = (evs, Inr [])"
    by (cases "get_all_items w URL 1") simp
  then have "main w = (evs @ [Print ''No items found on the page.''], Returned)"
    by (simp add: main_def truthy_getenv_or Let_def)
  with g show ?thesis by simp
qed

section \<open>Credentials\<close>

text \<open>
  C1 (the code departs from it): with \<^verbatim>\<open>TELEGRAM_BOT_TOKEN\<close> and \<^verbatim>\<open>TELEGRAM_CHAT_ID\<close> unset
  the run does not exit with code 2. The fallbacks \<^verbatim>\<open>or 1\<close> and \<^verbatim>\<open>or 2\<close> make both values
  truthy, so the guard of line 108 never fires (\<open>main_never_exits_2\<close>): the page is
  fetched, the image is downloaded and posted to the address built from the token \<open>1\<close>
  with the chat \<open>2\<close>, and the run returns normally.
\<close>

theorem unset_token_goes_on:
  "environ (world_with Map.empty (page_of [member_a_entry])) ''TELEGRAM_BOT_TOKEN'' = None
   \<and> main (world_with Map.empty (page_of [member_a_entry])) =
       ([HttpGet URL,
         PrintTag member_a_entry,
         Print ''https://thetv.jp//i/nw/1310405/1.jpg'',
         PrintItems [(''https://thetv.jp//i/nw/1310405/1.jpg'', ''Member A'')],
         Print ''[1/1] Processing: https://thetv.jp//i/nw/1310405/1.jpg'',
         HttpGet ''https://thetv.jp//i/nw/1310405/1.jpg'',
         HttpPost ''https://api.telegram.org/bot1/sendPhoto'' ''2'' ''1.jpg'' ''Member A'',
         Print (''  Sent as photo '' @ [CHR 0x27] @ ''1.jpg'' @ [CHR 0x27] @ '', ok=True''),
         SleepSeconds 3,
         SleepDelay ''1'',
         Print ''Done. Sent 1/1 images.''],
        Returned)"
  by code_simp

theorem unset_token_goes_on_witness:
  "exit_code (snd (main (world_with Map.empty (page_of [member_a_entry])))) = 0
   \<and> HttpGet URL \<in> set (fst (main (world_with Map.empty (page_of [member_a_entry]))))"
  using unset_token_goes_on by simp

section \<open>A page without the container\<close>

text \<open>
  C2 (the code departs from it): on a page with no \<^verbatim>\<open>div\<close> of class \<^verbatim>\<open>newsimage\<close> the
  subscript \<^verbatim>\<open>[0]\<close> of line 36 raises \<^verbatim>\<open>IndexError\<close>; the extractor returns no list, and the
  run prints the fetch/parse error and exits with code 1 instead of printing that no items
  were found and ending with code 0.
\<close>

theorem missing_container_raises:
  "get_all_items (world_with credentials no_container_page) URL 1 = ([HttpGet URL], Inl IndexError)
   \<and> main (world_with credentials no_container_page) =
       ([HttpGet URL, Print ''Error fetching/parsing page: list index out of range''], SysExit 1)"
  by code_simp

theorem missing_container_raises_witness:
  "exit_code (snd (main (world_with credentials no_container_page))) = 1"
  using missing_container_raises by simp

section \<open>The worked example of the specification\<close>

text \<open>
  C3 (the code departs from it): for the page whose one entry has the link target
  \<^verbatim>\<open>/news/detail/1310405/1/\<close> and the alternate text \<^verbatim>\<open>Member A\<close>, the extractor returns the
  address \<^verbatim>\<open>https://thetv.jp//i/nw/1310405/1.jpg\<close>, with two slashes after the host, where the
  example has one. The prefix of line 42 ends in a slash and the rewritten target starts with
  one; the branch of line 51, which resolves a root-relative address against the page, is
  never reached.
\<close>

theorem member_a_extracted:
  assumes "page_response w url = Inr (page_of [member_a_entry])"
  shows "snd (get_all_items w url i) =
           Inr [(''https://thetv.jp//i/nw/1310405/1.jpg'', ''Member A'')]"
proof -
  obtain cs where c: "find_all_class ''div'' ''newsimage'' (page_of [member_a_entry]) =
      Tag ''div'' [(''class'', ''newsimage'')] [Tag ''ul'' [] [member_a_entry]] # cs"
    using container_of_page_of by blast
  have "snd (items_loop w url [member_a_entry] [] [HttpGet url]) =
          Inr [(''https://thetv.jp//i/nw/1310405/1.jpg'', ''Member A'')]"
    by (simp add: member_a_href member_a_caption member_a_src normalize_src_def Let_def)
  with assms c show ?thesis
    by (simp add: get_all_items_def lis_of_member_a)
qed

theorem member_a_extracted_witness:
  "snd (get_all_items (world_with Map.empty (page_of [member_a_entry])) URL 1) =
     Inr [(''https://thetv.jp//i/nw/1310405/1.jpg'', ''Member A'')]"
  using member_a_extracted [of "world_with Map.empty (page_of [member_a_entry])" URL 1]
  by (simp add: world_with_def)

text \<open>The item of the example, with a single slash, is not what is returned; it is what
  the branch of line 51 gives for the rewritten target when \<^verbatim>\<open>urljoin\<close> resolves a root-relative
  address against the host of the page, as the sample world's does.\<close>

theorem member_a_not_single_slash:
  "snd (get_all_items (world_with Map.empty (page_of [member_a_entry])) URL 1) \<noteq>
     Inr [(''https://thetv.jp/i/nw/1310405/1.jpg'', ''Member A'')]"
  by code_simp

theorem root_relative_target_resolved:
  "normalize_src (world_with Map.empty (page_of [member_a_entry])) URL
     (replace ''/news/detail/'' ''/i/nw/'' (butlast (strip ''/news/detail/1310405/1/'')) @ ''.jpg'') =
   ''https://thetv.jp/i/nw/1310405/1.jpg''"
  by code_simp

section \<open>Captions\<close>

text \<open>
  C4 (the code departs from it): for an entry whose image has no \<^verbatim>\<open>alt\<close> attribute the
  subscript \<^verbatim>\<open>img["alt"]\<close> of line 54 raises \<^verbatim>\<open>KeyError\<close> after the entry and its address were
  printed; no item with an empty caption is produced.
\<close>

theorem image_without_alt_raises:
  "get_all_items (world_with credentials (page_of [no_alt_entry])) URL 1 =
     ([HttpGet URL, PrintTag no_alt_entry, Print ''https://thetv.jp//i/nw/1310405/2.jpg''],
      Inl (KeyError ''alt''))"
  by code_simp

section \<open>Entries with and without a usable link\<close>



section \<open>The name of a downloaded file\<close>

text \<open>
  C6: for an image that was downloaded, the name returned with the bytes is the decoded last
  segment of the address's path, or \<^verbatim>\<open>file\<close> when that is empty; it is returned unchanged when
  its lower-case form ends in one of \<^verbatim>\<open>.jpg .jpeg .png .gif .webp\<close>, and with \<^verbatim>\<open>.jpg\<close>
  appended otherwise. In particular a path ending in a slash gives \<^verbatim>\<open>file.jpg\<close>.
\<close>

theorem filename_rule:
  assumes "image_response w idx image_url = Inr content"
    and "urlparse_path w image_url = Some path"
  shows "\<exists>name. snd (download_image_bytes w idx image_url) = Inr (content, name)
     \<and> (let decoded = unquote w (last_segment path);
             base = (if decoded = [] then ''file'' else decoded)
         in (recognized_extension base \<longrightarrow> name = base)
          \<and> (\<not> recognized_extension base \<longrightarrow> name = base @ ''.jpg''))
     \<and> (last_segment path = [] \<and> unquote w [] = [] \<longrightarrow> name = ''file.jpg'')"
proof -
  let ?name = "ensure_extension (derive_name w image_url)"
  have d: "snd (download_image_bytes w idx image_url) = Inr (content, ?name)"
    using assms(1) by (simp add: download_image_bytes_def)
  have e: "ensure_extension n = (if recognized_extension n then n else n @ ''.jpg'')" for n
    by (simp add: ensure_extension_def endswith_recognized)
  have "let decoded = unquote w (last_segment path);
            base = (if decoded = [] then ''file'' else decoded)
        in (recognized_extension base \<longrightarrow> ?name = base)
         \<and> (\<not> recognized_extension base \<longrightarrow> ?name = base @ ''.jpg'')"
    by (simp add: derive_name_path [OF assms(2)] e Let_def)
  moreover have "last_segment path = [] \<and> unquote w [] = [] \<longrightarrow> ?name = ''file.jpg''"
    by (simp add: derive_name_path [OF assms(2)] e file_not_recognized)
  ultimately show ?thesis using d by blast
qed

theorem filename_rule_witness:
  "snd (download_image_bytes (world_with credentials (page_of three_entries)) 1
          ''https://thetv.jp//i/nw/1310405/Cover.PNG'') = Inr ([], ''Cover.PNG'')
   \<and> snd (download_image_bytes (world_with credentials (page_of three_entries)) 1
          ''https://thetv.jp//i/nw/1310405/photo'') = Inr ([], ''photo.jpg'')
   \<and> snd (download_image_bytes (world_with credentials (page_of three_entries)) 1
          ''https://thetv.jp//i/nw/1310405/'') = Inr ([], ''file.jpg'')"
proof -
  let ?w = "world_with credentials (page_of three_entries)"
  have r: "image_response ?w 1 u = Inr []" for u
    by (simp add: world_with_def)
  have p1: "urlparse_path ?w ''https://thetv.jp//i/nw/1310405/Cover.PNG'' = Some ''//i/nw/1310405/Cover.PNG''"
    and p2: "urlparse_path ?w ''https://thetv.jp//i/nw/1310405/photo'' = Some ''//i/nw/1310405/photo''"
    and p3: "urlparse_path ?w ''https://thetv.jp//i/nw/1310405/'' = Some ''//i/nw/1310405/''"
    by (simp_all add: world_with_def)
  have u: "unquote ?w s = s" for s
    by (simp add: world_with_def)
  have s1: "last_segment ''//i/nw/1310405/Cover.PNG'' = ''Cover.PNG''"
    and s2: "last_segment ''//i/nw/1310405/photo'' = ''photo''"
    and s3: "last_segment ''//i/nw/1310405/'' = ''''"
    by (simp_all add: last_segment_def)
  have e1: "recognized_extension ''Cover.PNG''"
    by code_simp
  have e2: "\<not> recognized_extension ''photo''"
    by code_simp
  from filename_rule [OF r p1] e1 have
    "snd (download_image_bytes ?w 1 ''https://thetv.jp//i/nw/1310405/Cover.PNG'') = Inr ([], ''Cover.PNG'')"
    by (auto simp: u s1 Let_def)
  moreover from filename_rule [OF r p2] e2 have
    "snd (download_image_bytes ?w 1 ''https://thetv.jp//i/nw/1310405/photo'') = Inr ([], ''photo.jpg'')"
    by (auto simp: u s2 Let_def)
  moreover from filename_rule [OF r p3] have
    "snd (download_image_bytes ?w 1 ''https://thetv.jp//i/nw/1310405/'') = Inr ([], ''file.jpg'')"
    by (auto simp: u s3 Let_def)
  ultimately show ?thesis by blast
qed

section \<open>Failures of single items\<close>



section \<open>Relative link targets\<close>

text \<open>
  C8 (the code departs from it): an entry with the protocol-relative link target
  \<^verbatim>\<open>//thetv.jp/news/detail/1310405/5/\<close> gets the address
  \<^verbatim>\<open>https://thetv.jp///thetv.jp/i/nw/1310405/5.jpg\<close>, and one with a root-relative target an
  address with two slashes after the host: the fixed prefix is put in front of the rewritten
  target before lines 48 to 51 look at it, so neither branch ever runs. On the rewritten
  targets themselves the same two branches give the normalised addresses
  \<^verbatim>\<open>https://thetv.jp/i/nw/1310405/5.jpg\<close> and \<^verbatim>\<open>https://thetv.jp/i/nw/1310405/1.jpg\<close>.
\<close>

theorem relative_hrefs_not_normalized:
  "snd (get_all_items (world_with credentials (page_of [protocol_relative_entry, member_a_entry]))
          URL 1) =
     Inr [(''https://thetv.jp///thetv.jp/i/nw/1310405/5.jpg'', ''Member E''),
          (''https://thetv.jp//i/nw/1310405/1.jpg'', ''Member A'')]
   \<and> normalize_src (world_with credentials (page_of [protocol_relative_entry, member_a_entry])) URL
         (replace ''/news/detail/'' ''/i/nw/'' (butlast (strip ''//thetv.jp/news/detail/1310405/5/''))
            @ ''.jpg'') =
       ''https://thetv.jp/i/nw/1310405/5.jpg''
   \<and> normalize_src (world_with credentials (page_of [protocol_relative_entry, member_a_entry])) URL
         (replace ''/news/detail/'' ''/i/nw/'' (butlast (strip ''/news/detail/1310405/1/'')) @ ''.jpg'') =
       ''https://thetv.jp/i/nw/1310405/1.jpg''"
  by code_simp

section \<open>The shape of every address\<close>

text \<open>
  C9: the address built for any link target starts neither with \<^verbatim>\<open>//\<close> nor with \<^verbatim>\<open>/\<close>, so
  the normalisation of lines 48 to 51 changes nothing and the result does not depend on
  \<^verbatim>\<open>urljoin\<close>; every item the extractor returns has an address that begins with
  \<^verbatim>\<open>https://thetv.jp/\<close> and ends with \<^verbatim>\<open>.jpg\<close>, hence is non-empty and absolute.
\<close>

theorem item_urls_fixed_shape:
  "(\<forall>h. \<not> prefix ''//'' (entry_src h) \<and> \<not> prefix ''/'' (entry_src h)
        \<and> normalize_src w url (entry_src h) = entry_src h)
   \<and> get_all_items (w\<lparr>urljoin := f\<rparr>) url i = get_all_items w url i
   \<and> (snd (get_all_items w url i) = Inr items \<longrightarrow>
        (\<forall>it\<in>set items. prefix ''https://thetv.jp/'' (fst it) \<and> suffix ''.jpg'' (fst it)
            \<and> fst it \<noteq> [] \<and> url_origin (fst it) = Some ''https://thetv.jp''))"
proof (intro conjI allI impI ballI)
  fix it
  assume "snd (get_all_items w url i) = Inr items" and "it \<in> set items"
  then have t: "thetv_jpg (fst it)"
    using get_all_items_urls by (fastforce simp: list_all_iff)
  then show "prefix ''https://thetv.jp/'' (fst it)" and "suffix ''.jpg'' (fst it)"
    by (simp_all add: thetv_jpg_def)
  from t show "fst it \<noteq> []" by (auto simp: thetv_jpg_def)
  from t obtain r where "fst it = ''https://thetv.jp/'' @ r"
    by (auto simp: thetv_jpg_def prefix_def)
  then show "url_origin (fst it) = Some ''https://thetv.jp''"
    by (simp add: url_origin_def)
qed (simp_all add: entry_src_not_relative entry_src_not_protocol_relative normalize_entry_src
      get_all_items_urljoin)

theorem item_urls_fixed_shape_witness:
  "snd (get_all_items (world_with credentials (page_of three_entries)) URL 1) =
     Inr [(''https://thetv.jp//i/nw/1310405/1.jpg'', ''Member A''),
          (''https://thetv.jp//i/nw/1310405/3.jpg'', '''')]
   \<and> url_origin ''https://thetv.jp//i/nw/1310405/3.jpg'' = Some ''https://thetv.jp''
   \<and> suffix ''.jpg'' ''https://thetv.jp//i/nw/1310405/3.jpg''"
proof -
  let ?w = "world_with credentials (page_of three_entries)"
  let ?items = "[(''https://thetv.jp//i/nw/1310405/1.jpg'', ''Member A''),
          (''https://thetv.jp//i/nw/1310405/3.jpg'', '''')]"
  have run: "snd (get_all_items ?w URL 1) = Inr ?items"
    by code_simp
  from item_urls_fixed_shape [of ?w URL "\<lambda>b u. u" 1 ?items] run
  show ?thesis by simp
qed

section \<open>An unparseable delay\<close>

text \<open>
  C10: when \<^verbatim>\<open>TELEGRAM_DELAY_SECONDS\<close> is set to a text that \<^verbatim>\<open>float\<close> rejects and the extractor
  returns a non-empty list, the run ends with an uncaught \<^verbatim>\<open>ValueError\<close>; its output is the
  extractor's alone, whose only request is the page fetch, so no image was downloaded or
  sent and no pause with a default delay was taken.
\<close>

theorem unparseable_delay_uncaught:
  assumes "environ w ''TELEGRAM_DELAY_SECONDS'' = Some s"
    and "\<not> float_ok w s"
    and "snd (get_all_items w URL 1) = Inr items"
    and "items \<noteq> []"
  shows "(\<exists>m. snd (main w) = Uncaught (ValueError m))
       \<and> fst (main w) = fst (get_all_items w URL 1)
       \<and> filter is_request (fst (main w)) = [HttpGet URL]
       \<and> filter is_sleep (fst (main w)) = []"
proof -
  obtain evs where g: "get_all_items w URL 1 = (evs, Inr items)"
    using assms(3) by (cases "get_all_items w URL 1") simp
  have d: "getenv_default w ''TELEGRAM_DELAY_SECONDS'' ''1'' = s"
    using assms(1) by (simp add: getenv_default_def)
  have m: "main w = (evs, Uncaught (ValueError (''could not convert string to float: '' @ [CHR 0x27] @ s @ [CHR 0x27])))"
    using g d assms(2,4) by (simp add: main_def truthy_getenv_or Let_def)
  have "filter is_request evs = [HttpGet URL]"
    using get_all_items_requests [of w URL 1] g by simp
  moreover have "filter is_sleep evs = []"
    using get_all_items_sleeps [of w URL 1] g by simp
  ultimately show ?thesis using m g by simp
qed

theorem unparseable_delay_uncaught_witness:
  "snd (main (world_with (delay_env ''fast'') (page_of three_entries))) =
     Uncaught (ValueError (''could not convert string to float: '' @ [CHR 0x27] @ ''fast'' @ [CHR 0x27]))
   \<and> filter is_request (fst (main (world_with (delay_env ''fast'') (page_of three_entries)))) = [HttpGet URL]"
proof -
  let ?w = "world_with (delay_env ''fast'') (page_of three_entries)"
  have e: "environ ?w ''TELEGRAM_DELAY_SECONDS'' = Some ''fast''"
    by (simp add: world_with_def delay_env_def)
  have f: "\<not> float_ok ?w ''fast''"
    by (simp add: world_with_def)
  have run: "snd (get_all_items ?w URL 1) =
     Inr [(''https://thetv.jp//i/nw/1310405/1.jpg'', ''Member A''),
          (''https://thetv.jp//i/nw/1310405/3.jpg'', '''')]"
    by code_simp
  have ne: "[(''https://thetv.jp//i/nw/1310405/1.jpg'', ''Member A''),
          (''https://thetv.jp//i/nw/1310405/3.jpg'', '''')] \<noteq> []" by simp
  have m: "snd (main ?w) =
     Uncaught (ValueError (''could not convert string to float: '' @ [CHR 0x27] @ ''fast'' @ [CHR 0x27]))"
    by code_simp
  from unparseable_delay_uncaught [OF e f run ne]
  have "filter is_request (fst (main ?w)) = [HttpGet URL]" by blast
  with m show ?thesis by blast
qed

end
